theory Spec2Isabelle
  imports Complex_Main
begin

section \<open>The DataTable widget of src/package/DataTable.tsx\<close>

text \<open>
  The component is a function of its props and of six pieces of React state. Its logic is
  embedded here as pure functions: every event handler takes the values its closure captured
  and returns the value it passes to the application's callback together with the state it
  sets.

  A record of the table is an opaque value of type \<open>'r\<close>; \<open>get(record, idAccessor)\<close> is
  the function \<open>idOf :: 'r \<Rightarrow> 'k\<close>. HOL equality on \<open>'k\<close> is SameValueZero, the
  comparison of \<open>Array.prototype.includes\<close> and of lodash; \<open>===\<close> and \<open>!==\<close> differ
  from it on NaN and are embedded apart (\<open>strictEquals\<close>). The selection handlers are installed only when
  \<open>onSelectedRecordsChange\<close> is given and read \<open>selectedRecords\<close> and \<open>records\<close>
  without a guard, so both are lists (never \<open>undefined\<close>) in the functions that embed
  them; the tests \<open>recordIds !== undefined\<close> and \<open>selectedRecordIds !== undefined\<close> of
  line 144 are then true. The scroll viewport's ref is attached whenever a handler runs.
\<close>

subsection \<open>Library functions the component calls\<close>

text \<open>\<open>Array.prototype.includes\<close>.\<close>

definition array_includes :: "'a list \<Rightarrow> 'a \<Rightarrow> bool" where
  "array_includes xs x = (x \<in> set xs)"

text \<open>
  lodash \<open>uniqBy(array, iteratee)\<close>: one pass from the left that keeps an element when the
  iteratee's value has not been seen yet, so the first occurrence of every key survives and
  the order is that of the array.
\<close>

fun baseUniq :: "('a \<Rightarrow> 'k) \<Rightarrow> 'a list \<Rightarrow> 'k list \<Rightarrow> 'a list" where
  "baseUniq iteratee [] seen = []"
| "baseUniq iteratee (x # xs) seen =
     (if array_includes seen (iteratee x) then baseUniq iteratee xs seen
      else x # baseUniq iteratee xs (iteratee x # seen))"

definition uniqBy :: "'a list \<Rightarrow> ('a \<Rightarrow> 'k) \<Rightarrow> 'a list" where
  "uniqBy array iteratee = baseUniq iteratee array []"

text \<open>
  lodash \<open>differenceBy(array, values, iteratee)\<close>: the elements of \<open>array\<close> whose
  iteratee value is not the iteratee value of an element of \<open>values\<close>, in order.
\<close>

definition differenceBy :: "'a list \<Rightarrow> 'a list \<Rightarrow> ('a \<Rightarrow> 'k) \<Rightarrow> 'a list" where
  "differenceBy array vals iteratee =
     filter (\<lambda>x. \<not> array_includes (map iteratee vals) (iteratee x)) array"

text \<open>\<open>Array.prototype.filter\<close> with a callback that reads the element and its index.\<close>

definition filterWithIndex :: "('a \<Rightarrow> nat \<Rightarrow> bool) \<Rightarrow> 'a list \<Rightarrow> 'a list" where
  "filterWithIndex p xs = map fst (filter (\<lambda>(x, index). p x index) (zip xs [0..<length xs]))"

text \<open>\<open>Array.prototype.join\<close> on strings.\<close>

fun join :: "string \<Rightarrow> string list \<Rightarrow> string" where
  "join sep [] = []"
| "join sep [x] = x"
| "join sep (x # y # ys) = x @ sep @ join sep (y # ys)"

text \<open>
  \<open>===\<close> on keys: SameValueZero, but NaN is not equal to itself. \<open>isNaN\<close> tells which
  keys are NaN.
\<close>

definition strictEquals :: "('k \<Rightarrow> bool) \<Rightarrow> 'k \<Rightarrow> 'k \<Rightarrow> bool" where
  "strictEquals isNaN a b = (a = b \<and> \<not> isNaN a)"

subsection \<open>JavaScript numbers\<close>

text \<open>
  Sizes and scroll offsets are IEEE 754 binary64 numbers. What \<open>useElementSize\<close> and the
  DOM report is finite; a finite number is given by its exact value, a rational. The
  difference of two finite numbers is the exact difference rounded to the nearest
  binary64 number, a tie going to the even significand, and is infinite on overflow; it is
  never NaN. The two zeros are equal for \<open>===\<close> and \<open><=\<close> and are not told apart.
\<close>

datatype number = Finite rat | PosInfinity | NegInfinity

definition pow2 :: "int \<Rightarrow> rat" where
  "pow2 e = (if 0 \<le> e then 2 ^ nat e else 1 / 2 ^ nat (- e))"

text \<open>For \<open>a \<ge> 1\<close>, the exponent \<open>e\<close> with \<open>2 ^ e \<le> a < 2 ^ (e + 1)\<close>.\<close>

function exponentDown :: "rat \<Rightarrow> int" where
  "exponentDown a = (if a < 2 then 0 else 1 + exponentDown (a / 2))"
  by pat_completeness auto
termination
proof (relation "measure (\<lambda>a. nat \<lfloor>a\<rfloor>)")
  show "wf (measure (\<lambda>a::rat. nat \<lfloor>a\<rfloor>))" by simp
next
  fix a :: rat
  assume "\<not> a < 2"
  then have "a / 2 \<le> a - 1" by simp
  then have "\<lfloor>a / 2\<rfloor> \<le> \<lfloor>a - 1\<rfloor>" by (rule floor_mono)
  moreover have "\<lfloor>a - 1\<rfloor> = \<lfloor>a\<rfloor> - 1" by simp
  moreover from \<open>\<not> a < 2\<close> have "2 \<le> \<lfloor>a\<rfloor>" by (simp add: le_floor_iff)
  ultimately show "(a / 2, a) \<in> measure (\<lambda>a. nat \<lfloor>a\<rfloor>)" by simp
qed

text \<open>For \<open>0 < a < 1\<close>, the exponent \<open>e\<close> with \<open>2 ^ e \<le> a < 2 ^ (e + 1)\<close>.\<close>

function exponentUp :: "rat \<Rightarrow> int" where
  "exponentUp a = (if a \<le> 0 \<or> 1 \<le> a then 0 else exponentUp (2 * a) - 1)"
  by pat_completeness auto
termination
proof (relation "measure (\<lambda>a. nat \<lceil>1 / a\<rceil>)")
  show "wf (measure (\<lambda>a::rat. nat \<lceil>1 / a\<rceil>))" by simp
next
  fix a :: rat
  assume "\<not> (a \<le> 0 \<or> 1 \<le> a)"
  then have a: "0 < a" "a < 1" by simp_all
  then have "1 < 1 / a" by simp
  then have c: "2 \<le> \<lceil>1 / a\<rceil>" by (simp add: le_ceiling_iff)
  have "1 / a \<le> of_int \<lceil>1 / a\<rceil>" by (rule le_of_int_ceiling)
  then have "1 / (2 * a) \<le> of_int \<lceil>1 / a\<rceil> / 2" by simp
  also have "\<dots> \<le> of_int (\<lceil>1 / a\<rceil> - 1)" using c by simp
  finally have "\<lceil>1 / (2 * a)\<rceil> \<le> \<lceil>1 / a\<rceil> - 1" by (simp only: ceiling_le_iff)
  with c a show "(2 * a, a) \<in> measure (\<lambda>a. nat \<lceil>1 / a\<rceil>)" by simp
qed

declare exponentDown.simps [simp del] exponentUp.simps [simp del]

definition floorLog2 :: "rat \<Rightarrow> int" where
  "floorLog2 a = (if 1 \<le> a then exponentDown a else exponentUp a)"

text \<open>The nearest integer, a tie going to the even one.\<close>

definition roundHalfEven :: "rat \<Rightarrow> int" where
  "roundHalfEven y =
     (let f = \<lfloor>y\<rfloor>; d = y - of_int f
      in if d < 1 / 2 then f else if 1 / 2 < d then f + 1 else if even f then f else f + 1)"

text \<open>
  Rounding a rational to binary64: 53 significant bits, the exponent of the leading bit
  not below -1022 (below it the numbers are subnormal, spaced \<open>2 ^ -1074\<close> apart), and
  infinity from \<open>2 ^ 1024\<close> on.
\<close>

definition round64 :: "rat \<Rightarrow> number" where
  "round64 x =
     (if x = 0 then Finite 0
      else
        let a = \<bar>x\<bar>;
            e = max (floorLog2 a) (- 1022);
            q = pow2 (e - 52);
            y = of_int (roundHalfEven (a / q)) * q
        in if pow2 1024 \<le> y then (if 0 < x then PosInfinity else NegInfinity)
           else Finite (sgn x * y))"

text \<open>The operator \<open>-\<close> on two finite numbers.\<close>

definition number_minus :: "rat \<Rightarrow> rat \<Rightarrow> number" where
  "number_minus a b = round64 (a - b)"

text \<open>\<open>Math.round\<close>: the nearest integer, a tie going up; an infinity is returned as it is.\<close>

fun Math_round :: "number \<Rightarrow> number" where
  "Math_round (Finite x) = Finite (of_int \<lfloor>x + 1 / 2\<rfloor>)"
| "Math_round PosInfinity = PosInfinity"
| "Math_round NegInfinity = NegInfinity"

subsection \<open>State and measurements\<close>

record 'r contextMenuInfo =
  cm_top :: rat
  cm_left :: rat
  cm_record :: 'r

text \<open>The six \<open>useState\<close> cells, with the initial values of lines 92 to 97 and 148.\<close>

record 'r state =
  scrolledToTop :: bool
  scrolledToBottom :: bool
  scrolledToLeft :: bool
  scrolledToRight :: bool
  contextMenuInfo :: "'r contextMenuInfo option"
  lastSelectionChangeIndex :: "nat option"

definition initialState :: "'r state" where
  "initialState =
     \<lparr>scrolledToTop = True, scrolledToBottom = True, scrolledToLeft = True,
      scrolledToRight = True, contextMenuInfo = None, lastSelectionChangeIndex = None\<rparr>"

text \<open>
  What \<open>useElementSize\<close> reports for the table and the scroll viewport, and the viewport's
  scroll offsets read through \<open>scrollViewportRef.current\<close>.
\<close>

record measures =
  tableHeight :: rat
  tableWidth :: rat
  scrollViewportHeight :: rat
  scrollViewportWidth :: rat
  scrollTop :: rat
  scrollLeft :: rat

subsection \<open>Scroll position (lines 98 to 122)\<close>

text \<open>The body of the effect on \<open>[fetching]\<close>, lines 98 to 100.\<close>

definition fetchingEffect :: "bool \<Rightarrow> 'r state \<Rightarrow> 'r state" where
  "fetchingEffect fetching s = (if fetching then s\<lparr>contextMenuInfo := None\<rparr> else s)"

definition onScrollPositionChange :: "bool \<Rightarrow> measures \<Rightarrow> 'r state \<Rightarrow> 'r state" where
  "onScrollPositionChange fetching m s =
     (let s1 = (if \<not> fetching then s\<lparr>contextMenuInfo := None\<rparr> else s);
          s2 = (if fetching \<or> tableHeight m \<le> scrollViewportHeight m
                then s1\<lparr>scrolledToTop := True, scrolledToBottom := True\<rparr>
                else s1\<lparr>scrolledToTop := (scrollTop m = 0),
                        scrolledToBottom :=
                          (Math_round (number_minus (tableHeight m) (scrollTop m))
                             = Math_round (Finite (scrollViewportHeight m)))\<rparr>)
      in if fetching \<or> tableWidth m = scrollViewportWidth m
         then s2\<lparr>scrolledToLeft := True, scrolledToRight := True\<rparr>
         else s2\<lparr>scrolledToLeft := (scrollLeft m = 0),
                 scrolledToRight :=
                   (Math_round (number_minus (tableWidth m) (scrollLeft m))
                      = Math_round (Finite (scrollViewportWidth m)))\<rparr>)"

text \<open>
  A commit in which the \<open>fetching\<close> prop changed: \<open>fetching\<close> is a dependency of the
  effect of line 98 and of the effect of line 124, which run in this order.
\<close>

definition fetchingChanged :: "bool \<Rightarrow> measures \<Rightarrow> 'r state \<Rightarrow> 'r state" where
  "fetchingChanged fetching m s = onScrollPositionChange fetching m (fetchingEffect fetching s)"

subsection \<open>Effects a handler performs, in call order\<close>

text \<open>
  A handler's calls that leave the component are logged in the order it makes them:
  a state setter, \<open>scrollTo\<close> on the viewport, or a callback of the application, whose
  result \<open>'e\<close> stands for whatever the application does.
\<close>

datatype ('r, 'e) effect =
    SetContextMenuInfo "'r contextMenuInfo option"
  | ScrollTo rat rat
  | AppCall 'e

fun perform :: "('r, 'e) effect \<Rightarrow> 'r state \<times> measures \<Rightarrow> 'r state \<times> measures" where
  "perform (SetContextMenuInfo i) (s, m) = (s\<lparr>contextMenuInfo := i\<rparr>, m)"
| "perform (ScrollTo t l) (s, m) = (s, m\<lparr>scrollTop := t, scrollLeft := l\<rparr>)"
| "perform (AppCall e) (s, m) = (s, m)"

definition performAll :: "('r, 'e) effect list \<Rightarrow> 'r state \<times> measures \<Rightarrow> 'r state \<times> measures" where
  "performAll es w = foldl (\<lambda>w e. perform e w) w es"

subsection \<open>Pagination (lines 135 to 138)\<close>

definition handlePageChange :: "('p \<Rightarrow> 'e) \<Rightarrow> 'p \<Rightarrow> ('r, 'e) effect list" where
  "handlePageChange onPageChange page = [ScrollTo 0 0, AppCall (onPageChange page)]"

subsection \<open>Selection (lines 140 to 153 and 200 to 250)\<close>

definition recordIds :: "('r \<Rightarrow> 'k) \<Rightarrow> 'r list \<Rightarrow> 'k list" where
  "recordIds idOf records = map idOf records"

definition hasRecordsAndSelectedRecords :: "('r \<Rightarrow> 'k) \<Rightarrow> 'r list \<Rightarrow> 'r list \<Rightarrow> bool" where
  "hasRecordsAndSelectedRecords idOf records selectedRecords =
     (length (recordIds idOf selectedRecords) > 0)"

definition allRecordsSelected :: "('r \<Rightarrow> 'k) \<Rightarrow> 'r list \<Rightarrow> 'r list \<Rightarrow> bool" where
  "allRecordsSelected idOf records selectedRecords =
     (hasRecordsAndSelectedRecords idOf records selectedRecords \<and>
      list_all (\<lambda>k. array_includes (recordIds idOf selectedRecords) k) (recordIds idOf records))"

definition someRecordsSelected :: "('r \<Rightarrow> 'k) \<Rightarrow> 'r list \<Rightarrow> 'r list \<Rightarrow> bool" where
  "someRecordsSelected idOf records selectedRecords =
     (hasRecordsAndSelectedRecords idOf records selectedRecords \<and>
      list_ex (\<lambda>k. array_includes (recordIds idOf selectedRecords) k) (recordIds idOf records))"

text \<open>
  \<open>recordIdsString\<close>, line 150: \<open>records\<close> may be undefined here; \<open>toStr\<close> is the
  conversion \<open>join\<close> applies to every key. An empty result is falsy and replaced by \<open>''\<close>.
\<close>

definition recordIdsString :: "('k \<Rightarrow> string) \<Rightarrow> ('r \<Rightarrow> 'k) \<Rightarrow> 'r list option \<Rightarrow> string" where
  "recordIdsString toStr idOf records =
     (case records of
        None \<Rightarrow> []
      | Some rs \<Rightarrow>
          (let joined = join '':'' (map toStr (recordIds idOf rs))
           in if joined = [] then [] else joined))"

text \<open>
  The effect of lines 151 to 153 runs when \<open>recordIdsString\<close> is not the value of the
  previous render.
\<close>

definition recordIdsEffect :: "string \<Rightarrow> string \<Rightarrow> 'r state \<Rightarrow> 'r state" where
  "recordIdsEffect previous current s =
     (if previous \<noteq> current then s\<lparr>lastSelectionChangeIndex := None\<rparr> else s)"

definition recordsChanged ::
  "('k \<Rightarrow> string) \<Rightarrow> ('r \<Rightarrow> 'k) \<Rightarrow> 'r list option \<Rightarrow> 'r list option \<Rightarrow> 'r state \<Rightarrow> 'r state" where
  "recordsChanged toStr idOf oldRecords newRecords s =
     recordIdsEffect (recordIdsString toStr idOf oldRecords) (recordIdsString toStr idOf newRecords) s"

text \<open>The header checkbox, lines 202 to 208: the list passed to \<open>onSelectedRecordsChange\<close>.\<close>

definition headerOnSelectionChange :: "('r \<Rightarrow> 'k) \<Rightarrow> 'r list \<Rightarrow> 'r list \<Rightarrow> 'r list" where
  "headerOnSelectionChange idOf records selectedRecords =
     (if allRecordsSelected idOf records selectedRecords
      then filter (\<lambda>record. \<not> array_includes (recordIds idOf records) (idOf record)) selectedRecords
      else uniqBy (selectedRecords @ records) idOf)"

text \<open>\<open>selected\<close>, line 218.\<close>

definition selected :: "('r \<Rightarrow> 'k) \<Rightarrow> 'r list \<Rightarrow> 'r \<Rightarrow> bool" where
  "selected idOf selectedRecords record = array_includes (recordIds idOf selectedRecords) (idOf record)"

text \<open>\<open>recordsInterval\<close>, lines 230 to 234.\<close>

definition recordsInterval :: "'r list \<Rightarrow> nat \<Rightarrow> nat \<Rightarrow> 'r list" where
  "recordsInterval records lastIndex recordIndex =
     filterWithIndex
       (if recordIndex > lastIndex
        then (\<lambda>_ index. index \<ge> lastIndex \<and> index \<le> recordIndex)
        else (\<lambda>_ index. index \<ge> recordIndex \<and> index \<le> lastIndex))
       records"

text \<open>
  The checkbox of the row rendered for \<open>record\<close> at \<open>recordIndex\<close>, lines 228 to 248:
  the list passed to \<open>onSelectedRecordsChange\<close> and the new \<open>lastSelectionChangeIndex\<close>.
  The plain removal of line 243 compares with \<open>!==\<close>; \<open>selected\<close>, \<open>uniqBy\<close> and
  \<open>differenceBy\<close> compare with SameValueZero.
\<close>

definition rowOnSelectionChange ::
  "('k \<Rightarrow> bool) \<Rightarrow> ('r \<Rightarrow> 'k) \<Rightarrow> 'r list \<Rightarrow> 'r list \<Rightarrow> nat option \<Rightarrow> bool \<Rightarrow> 'r \<Rightarrow> nat
     \<Rightarrow> 'r list \<times> nat option" where
  "rowOnSelectionChange isNaN idOf records selectedRecords lastIndex shiftKey record recordIndex =
     (let recordId = idOf record in
      (case (if shiftKey then lastIndex else None) of
         Some l \<Rightarrow>
           (if selected idOf selectedRecords record
            then differenceBy selectedRecords (recordsInterval records l recordIndex) idOf
            else uniqBy (selectedRecords @ recordsInterval records l recordIndex) idOf)
       | None \<Rightarrow>
           (if selected idOf selectedRecords record
            then filter (\<lambda>record. \<not> strictEquals isNaN (idOf record) recordId) selectedRecords
            else uniqBy (selectedRecords @ [record]) idOf),
       Some recordIndex))"

text \<open>
  \<open>records.map((record, recordIndex) => ...)\<close>, line 216: a row, and so a handler, exists
  for every index of \<open>records\<close> and for no other.
\<close>

definition rowHandler ::
  "('k \<Rightarrow> bool) \<Rightarrow> ('r \<Rightarrow> 'k) \<Rightarrow> 'r list \<Rightarrow> 'r list \<Rightarrow> nat option \<Rightarrow> bool \<Rightarrow> nat
     \<Rightarrow> ('r list \<times> nat option) option" where
  "rowHandler isNaN idOf records selectedRecords lastIndex shiftKey recordIndex =
     (if recordIndex < length records
      then Some (rowOnSelectionChange isNaN idOf records selectedRecords lastIndex shiftKey
                   (records ! recordIndex) recordIndex)
      else None)"

subsection \<open>Row context menu (lines 252 to 260 and 295 to 324)\<close>

text \<open>
  A prop of type \<open>boolean | ((record: T) => boolean)\<close> that may be absent, and what
  \<open>typeof p === 'function' ? p(record) : p\<close> is worth as a condition.
\<close>

datatype 'r flagProp = Undefined | Value bool | Function "'r \<Rightarrow> bool"

fun evalFlag :: "'r flagProp \<Rightarrow> 'r \<Rightarrow> bool" where
  "evalFlag Undefined record = False"
| "evalFlag (Value b) record = b"
| "evalFlag (Function f) record = f record"

text \<open>
  An item of \<open>rowContextMenu.items\<close>. Its title, icon and colour only change how the item
  looks and are left out.
\<close>

record ('r, 'e) menuItem =
  item_key :: string
  item_hidden :: "'r flagProp"
  item_disabled :: "'r flagProp"
  item_onClick :: "'r \<Rightarrow> 'e"

record ('r, 'e) rowContextMenu =
  menu_disabled :: "'r flagProp"
  menu_items :: "('r, 'e) menuItem list"





text \<open>
  The \<open>onContextMenu\<close> prop of a row, lines 252 to 259: \<open>setContextMenuInfo\<close> itself,
  which the row calls with the pointer's coordinates and its record, or \<open>undefined\<close>.
\<close>

definition rowOnContextMenu ::
  "('r, 'e) rowContextMenu option \<Rightarrow> 'r \<Rightarrow> ('r contextMenuInfo \<Rightarrow> ('r, 'e) effect list) option" where
  "rowOnContextMenu rowContextMenu record =
     (case rowContextMenu of
        None \<Rightarrow> None
      | Some menu \<Rightarrow>
          if \<not> evalFlag (menu_disabled menu) record
          then Some (\<lambda>info. [SetContextMenuInfo (Some info)])
          else None)"

subsection \<open>Example data\<close>

text \<open>Five records with the keys 1 to 5; the key of a record is its first component.\<close>

definition exampleRecords :: "(nat \<times> string) list" where
  "exampleRecords = [(1, ''a''), (2, ''b''), (3, ''c''), (4, ''d''), (5, ''e'')]"

text \<open>
  Measurements: a table that overflows its viewport downwards and is scrolled by 100, and
  a table smaller than its viewport.
\<close>

definition overflowMeasures :: measures where
  "overflowMeasures =
     \<lparr>tableHeight = 600, tableWidth = 800, scrollViewportHeight = 500,
      scrollViewportWidth = 800, scrollTop = 100, scrollLeft = 0\<rparr>"

definition narrowMeasures :: measures where
  "narrowMeasures =
     \<lparr>tableHeight = 400, tableWidth = 400, scrollViewportHeight = 500,
      scrollViewportWidth = 500, scrollTop = 0, scrollLeft = 0\<rparr>"

text \<open>
  Tables in a viewport 500 high, scrolled by 100: one whose height leaves 499.75 below the
  offset, one 700 high. The last one has the binary64 numbers nearest to 500.7 and 0.2 as
  height and offset: their exact difference is below 500.5, their binary64 difference is
  500.5.
\<close>

definition jitterMeasures :: measures where
  "jitterMeasures =
     \<lparr>tableHeight = 2399 / 4, tableWidth = 800, scrollViewportHeight = 500,
      scrollViewportWidth = 800, scrollTop = 100, scrollLeft = 0\<rparr>"

definition tallMeasures :: measures where
  "tallMeasures =
     \<lparr>tableHeight = 700, tableWidth = 800, scrollViewportHeight = 500,
      scrollViewportWidth = 800, scrollTop = 100, scrollLeft = 0\<rparr>"

definition inexactMeasures :: measures where
  "inexactMeasures =
     \<lparr>tableHeight = 8808407552439091 / 17592186044416, tableWidth = 800,
      scrollViewportHeight = 500, scrollViewportWidth = 800,
      scrollTop = 3602879701896397 / 18014398509481984, scrollLeft = 0\<rparr>"

text \<open>
  A context menu of two items, the second hidden for the record with key 1; a menu opened on
  that record; the state in which it is open.
\<close>

definition exampleMenu :: "(nat \<times> string, string) rowContextMenu" where
  "exampleMenu =
     \<lparr>menu_disabled = Undefined,
      menu_items =
        [\<lparr>item_key = ''view'', item_hidden = Undefined, item_disabled = Undefined,
          item_onClick = (\<lambda>r. ''view '' @ snd r)\<rparr>,
         \<lparr>item_key = ''delete'', item_hidden = Function (\<lambda>r. fst r = 1),
          item_disabled = Value False, item_onClick = (\<lambda>r. ''delete '' @ snd r)\<rparr>]\<rparr>"

definition exampleInfo :: "(nat \<times> string) contextMenuInfo" where
  "exampleInfo = \<lparr>cm_top = 10, cm_left = 20, cm_record = (1, ''a'')\<rparr>"


text \<open>
  Two record lists with string keys: the key sequences differ, the keys joined with a colon
  do not.
\<close>

definition oldRecords :: "(string \<times> nat) list" where
  "oldRecords = [(''x:y'', 1), (''z'', 2)]"

definition newRecords :: "(string \<times> nat) list" where
  "newRecords = [(''x'', 3), (''y:z'', 4)]"

text \<open>Keys that are numbers, NaN among them, and a record list whose first key is NaN.\<close>

datatype idValue = IdNumber int | IdNaN

fun idIsNaN :: "idValue \<Rightarrow> bool" where
  "idIsNaN IdNaN = True"
| "idIsNaN (IdNumber n) = False"

definition nanRecords :: "(idValue \<times> string) list" where
  "nanRecords = [(IdNaN, ''a''), (IdNumber 2, ''b'')]"

section \<open>Properties\<close>

subsection \<open>De-duplication, difference and the index filter\<close>

lemma keys_baseUniq:
  "iteratee ` set (baseUniq iteratee xs seen) = iteratee ` set xs - set seen"
  by (induction xs arbitrary: seen) (auto simp: array_includes_def)

lemma set_baseUniq_subset: "set (baseUniq iteratee xs seen) \<subseteq> set xs"
  by (induction xs arbitrary: seen) (auto simp: array_includes_def)

lemma distinct_baseUniq: "distinct (map iteratee (baseUniq iteratee xs seen))"
proof (induction xs arbitrary: seen)
  case Nil
  show ?case by simp
next
  case (Cons x xs)
  have "iteratee x \<notin> iteratee ` set (baseUniq iteratee xs (iteratee x # seen))"
    unfolding keys_baseUniq by simp
  with Cons show ?case by simp
qed

lemma baseUniq_unchanged:
  "distinct (map iteratee xs) \<Longrightarrow> iteratee ` set xs \<inter> set seen = {} \<Longrightarrow>
   baseUniq iteratee xs seen = xs"
  by (induction xs arbitrary: seen) (auto simp: array_includes_def)

lemma filter_interval_upt:
  "filter (\<lambda>i. lo \<le> i \<and> i \<le> hi) [0..<n] = [lo..<min n (Suc hi)]"
proof (induction n)
  case 0
  show ?case by simp
next
  case (Suc n)
  show ?case
  proof (cases "lo \<le> n \<and> n \<le> hi")
    case True
    then have "min (Suc n) (Suc hi) = Suc n" "min n (Suc hi) = n" by auto
    with True Suc show ?thesis by simp
  next
    case False
    have "[lo..<min (Suc n) (Suc hi)] = [lo..<min n (Suc hi)]"
    proof (cases "n \<le> hi")
      case True
      with False have "n < lo" by simp
      then show ?thesis by simp
    next
      case False
      then have "min (Suc n) (Suc hi) = Suc hi" "min n (Suc hi) = Suc hi" by auto
      then show ?thesis by simp
    qed
    with False Suc show ?thesis by simp
  qed
qed

lemma filterWithIndex_nth:
  "filterWithIndex (\<lambda>_. p) xs = map (nth xs) (filter p [0..<length xs])"
proof -
  have z: "zip xs [0..<length xs] = map (\<lambda>i. (xs ! i, i)) [0..<length xs]"
    by (rule nth_equalityI) auto
  show ?thesis
    unfolding filterWithIndex_def z by (simp add: filter_map comp_def)
qed

lemma recordsInterval_eq:
  "recordsInterval records a j = map (nth records) [min a j..<min (length records) (Suc (max a j))]"
proof (cases "j > a")
  case True
  then have "min a j = a" "max a j = j" by auto
  with True show ?thesis
    by (simp add: recordsInterval_def filterWithIndex_nth filter_interval_upt)
next
  case False
  then have "min a j = j" "max a j = a" by auto
  with False show ?thesis
    by (simp add: recordsInterval_def filterWithIndex_nth filter_interval_upt)
qed


lemma keys_uniqBy: "iteratee ` set (uniqBy xs iteratee) = iteratee ` set xs"
  by (simp add: uniqBy_def keys_baseUniq)

lemma distinct_uniqBy: "distinct (map iteratee (uniqBy xs iteratee))"
  by (simp add: uniqBy_def distinct_baseUniq)

lemma set_uniqBy_subset: "set (uniqBy xs iteratee) \<subseteq> set xs"
  by (simp add: uniqBy_def set_baseUniq_subset)

lemma uniqBy_unchanged: "distinct (map iteratee xs) \<Longrightarrow> uniqBy xs iteratee = xs"
  by (simp add: uniqBy_def baseUniq_unchanged)

lemma keys_filter_out:
  "iteratee ` set (filter (\<lambda>x. iteratee x \<notin> A) xs) = iteratee ` set xs - A"
  by auto

lemma differenceBy_filter:
  "differenceBy xs ys iteratee = filter (\<lambda>x. iteratee x \<notin> iteratee ` set ys) xs"
  by (simp add: differenceBy_def array_includes_def)

lemma selected_iff: "selected idOf S x \<longleftrightarrow> idOf x \<in> idOf ` set S"
  by (simp add: selected_def array_includes_def recordIds_def)

lemma interval_keys_distinct:
  assumes d: "distinct (map idOf R)" and i: "i < length R" and out: "i < lo \<or> hi \<le> i"
  shows "idOf (R ! i) \<notin> idOf ` set (map (nth R) [lo..<min (length R) hi])"
proof
  assume "idOf (R ! i) \<in> idOf ` set (map (nth R) [lo..<min (length R) hi])"
  then obtain k where k: "lo \<le> k" "k < length R" "k < hi" and e: "idOf (R ! i) = idOf (R ! k)"
    by auto
  from e i k(2) have "map idOf R ! i = map idOf R ! k" by simp
  moreover have "(map idOf R ! i = map idOf R ! k) = (i = k)"
    using d i k(2) by (intro nth_eq_iff_index_eq) simp_all
  ultimately have "i = k" by simp
  with out k show False by simp
qed

subsection \<open>Shift-click ranges\<close>

text \<open>
  C1, amended. A shift-click on the row at index \<open>j\<close> while the anchor is \<open>a\<close> works on
  the records at the indices from \<open>min a j\<close> to \<open>max a j\<close>, both included (cut at the end
  of the list). When the clicked row is not selected, the new selection is the old one
  followed by these records, with one entry per key: its keys are the old keys and the keys
  of the interval. When the clicked row is selected, the new selection is the old one
  without the entries whose key is the key of a record of the interval. A record whose key
  is not the key of a record of the interval keeps its selection status; when the keys of
  the record list are distinct these are the records at every index outside the interval.
  Swapping anchor and clicked row gives the same interval, and the same selection when the
  two rows have the same selection status.
\<close>

theorem shift_range_selection:
  assumes "j < length R"
  shows "let I = recordsInterval R a j;
             S' = (if selected idOf S (R ! j) then filter (\<lambda>x. idOf x \<notin> idOf ` set I) S
                   else uniqBy (S @ I) idOf)
         in I = map (nth R) [min a j..<min (length R) (Suc (max a j))]
          \<and> rowHandler isNaN idOf R S (Some a) True j = Some (S', Some j)
          \<and> (\<not> selected idOf S (R ! j) \<longrightarrow>
               distinct (map idOf S') \<and> idOf ` set S' = idOf ` set S \<union> idOf ` set I
               \<and> set S' \<subseteq> set S \<union> set I)
          \<and> (selected idOf S (R ! j) \<longrightarrow> idOf ` set S' = idOf ` set S - idOf ` set I)
          \<and> (\<forall>x. idOf x \<notin> idOf ` set I \<longrightarrow> selected idOf S' x = selected idOf S x)
          \<and> (distinct (map idOf R) \<longrightarrow>
               (\<forall>i<length R. i < min a j \<or> max a j < i \<longrightarrow>
                  selected idOf S' (R ! i) = selected idOf S (R ! i)))
          \<and> recordsInterval R j a = I
          \<and> (a < length R \<and> selected idOf S (R ! a) = selected idOf S (R ! j) \<longrightarrow>
               rowHandler isNaN idOf R S (Some j) True a = Some (S', Some a))"
proof -
  define I where "I = recordsInterval R a j"
  define S' where "S' = (if selected idOf S (R ! j) then filter (\<lambda>x. idOf x \<notin> idOf ` set I) S
                   else uniqBy (S @ I) idOf)"
  have c1: "I = map (nth R) [min a j..<min (length R) (Suc (max a j))]"
    unfolding I_def by (rule recordsInterval_eq)
  have sym: "recordsInterval R j a = I"
    unfolding I_def recordsInterval_eq by (simp add: min.commute max.commute)
  have c2: "rowHandler isNaN idOf R S (Some a) True j = Some (S', Some j)"
    using assms by (simp add: rowHandler_def rowOnSelectionChange_def S'_def I_def differenceBy_filter)
  have c3: "\<not> selected idOf S (R ! j) \<longrightarrow>
               distinct (map idOf S') \<and> idOf ` set S' = idOf ` set S \<union> idOf ` set I
               \<and> set S' \<subseteq> set S \<union> set I"
    using set_uniqBy_subset [of "S @ I" idOf]
    by (simp add: S'_def distinct_uniqBy keys_uniqBy image_Un)
  have c4: "selected idOf S (R ! j) \<longrightarrow> idOf ` set S' = idOf ` set S - idOf ` set I"
    by (auto simp: S'_def)
  have keys: "idOf ` set S' = (if selected idOf S (R ! j) then idOf ` set S - idOf ` set I
                               else idOf ` set S \<union> idOf ` set I)"
    using c3 c4 by simp
  have c5: "\<forall>x. idOf x \<notin> idOf ` set I \<longrightarrow> selected idOf S' x = selected idOf S x"
    unfolding selected_iff [of idOf S'] keys by (simp add: selected_iff)
  have c6: "distinct (map idOf R) \<longrightarrow>
               (\<forall>i<length R. i < min a j \<or> max a j < i \<longrightarrow>
                  selected idOf S' (R ! i) = selected idOf S (R ! i))"
  proof (intro impI allI)
    fix i assume d: "distinct (map idOf R)" and i: "i < length R" and o: "i < min a j \<or> max a j < i"
    from o have "i < min a j \<or> Suc (max a j) \<le> i" by auto
    from interval_keys_distinct [OF d i this] have "idOf (R ! i) \<notin> idOf ` set I"
      unfolding c1 .
    with c5 show "selected idOf S' (R ! i) = selected idOf S (R ! i)" by blast
  qed
  have c7: "a < length R \<and> selected idOf S (R ! a) = selected idOf S (R ! j) \<longrightarrow>
               rowHandler isNaN idOf R S (Some j) True a = Some (S', Some a)"
    by (simp add: rowHandler_def rowOnSelectionChange_def S'_def sym I_def [symmetric] differenceBy_filter)
  from c1 c2 c3 c4 c5 c6 sym c7 show ?thesis
    unfolding Let_def I_def [symmetric] S'_def [symmetric] by blast
qed

theorem shift_range_selection_witness:
  "4 < length exampleRecords
   \<and> \<not> selected fst [(2, ''b'')] (exampleRecords ! 4)
   \<and> rowHandler (\<lambda>k. False) fst exampleRecords [(2, ''b'')] (Some 1) True 4
       = Some ([(2, ''b''), (3, ''c''), (4, ''d''), (5, ''e'')], Some 4)
   \<and> 2 < length exampleRecords
   \<and> selected fst [(2, ''b''), (3, ''c''), (4, ''d''), (5, ''e'')] (exampleRecords ! 2)
   \<and> selected fst [(2, ''b''), (3, ''c''), (4, ''d''), (5, ''e'')] (exampleRecords ! 4)
   \<and> rowHandler (\<lambda>k. False) fst exampleRecords [(2, ''b''), (3, ''c''), (4, ''d''), (5, ''e'')] (Some 4) True 2
       = Some ([(2, ''b'')], Some 2)
   \<and> rowHandler (\<lambda>k. False) fst exampleRecords [(2, ''b''), (3, ''c''), (4, ''d''), (5, ''e'')] (Some 2) True 4
       = Some ([(2, ''b'')], Some 4)
   \<and> distinct (map fst exampleRecords)
   \<and> selected fst [(2, ''b''), (3, ''c''), (4, ''d''), (5, ''e'')] (exampleRecords ! 0)
       = selected fst [(2, ''b'')] (exampleRecords ! 0)"
proof -
  have h4: "4 < length exampleRecords" and h2: "2 < length exampleRecords"
    by (simp_all add: exampleRecords_def)
  have d: "distinct (map fst exampleRecords)" by (simp add: exampleRecords_def)
  have n: "\<not> selected fst [(2::nat, ''b'')] (exampleRecords ! 4)"
    by code_simp
  have s2: "selected fst [(2::nat, ''b''), (3, ''c''), (4, ''d''), (5, ''e'')] (exampleRecords ! 2)"
    by code_simp
  have s4: "selected fst [(2::nat, ''b''), (3, ''c''), (4, ''d''), (5, ''e'')] (exampleRecords ! 4)"
    by code_simp
  have h0: "0 < length exampleRecords \<and> (0 < min (1::nat) 4 \<or> max (1::nat) 4 < 0)"
    by (simp add: exampleRecords_def)
  have add: "(if selected fst [(2, ''b'')] (exampleRecords ! 4)
              then filter (\<lambda>x. fst x \<notin> fst ` set (recordsInterval exampleRecords 1 4)) [(2, ''b'')]
              else uniqBy ([(2, ''b'')] @ recordsInterval exampleRecords 1 4) fst)
             = [(2, ''b''), (3, ''c''), (4, ''d''), (5, ''e'')]"
    by code_simp
  have del: "(if selected fst [(2, ''b''), (3, ''c''), (4, ''d''), (5, ''e'')] (exampleRecords ! 2)
              then filter (\<lambda>x. fst x \<notin> fst ` set (recordsInterval exampleRecords 4 2))
                     [(2, ''b''), (3, ''c''), (4, ''d''), (5, ''e'')]
              else uniqBy ([(2, ''b''), (3, ''c''), (4, ''d''), (5, ''e'')]
                             @ recordsInterval exampleRecords 4 2) fst)
             = [(2, ''b'')]"
    by code_simp
  note t1 = shift_range_selection [OF h4, where a = 1 and idOf = fst and S = "[(2, ''b'')]"
      and isNaN = "\<lambda>k. False", unfolded Let_def add]
  note t2 = shift_range_selection [OF h2, where a = 4 and idOf = fst
      and S = "[(2, ''b''), (3, ''c''), (4, ''d''), (5, ''e'')]" and isNaN = "\<lambda>k. False",
      unfolded Let_def del]
  from t1 have a: "rowHandler (\<lambda>k. False) fst exampleRecords [(2, ''b'')] (Some 1) True 4
       = Some ([(2, ''b''), (3, ''c''), (4, ''d''), (5, ''e'')], Some 4)"
    by blast
  from t1 d have "\<forall>i<length exampleRecords. i < min 1 4 \<or> max 1 4 < i \<longrightarrow>
      selected fst [(2, ''b''), (3, ''c''), (4, ''d''), (5, ''e'')] (exampleRecords ! i)
        = selected fst [(2, ''b'')] (exampleRecords ! i)"
    by blast
  with h0 have o: "selected fst [(2, ''b''), (3, ''c''), (4, ''d''), (5, ''e'')] (exampleRecords ! 0)
       = selected fst [(2, ''b'')] (exampleRecords ! 0)"
    by blast
  from t2 have b: "rowHandler (\<lambda>k. False) fst exampleRecords [(2, ''b''), (3, ''c''), (4, ''d''), (5, ''e'')]
       (Some 4) True 2 = Some ([(2, ''b'')], Some 2)"
    by blast
  from t2 h4 s2 s4 have c: "rowHandler (\<lambda>k. False) fst exampleRecords [(2, ''b''), (3, ''c''), (4, ''d''), (5, ''e'')]
       (Some 2) True 4 = Some ([(2, ''b'')], Some 4)"
    by blast
  from h4 n a h2 s2 s4 b c d o show ?thesis by blast
qed

text \<open>
  With the record of key 2 selected, anchor 1 and a shift-click on row 4 select the rows 1
  to 4, since row 4 is not selected; anchor 4 and a shift-click on row 1 remove the rows 1
  to 4 from the selection, since row 1 is selected.
\<close>

theorem shift_range_order_counterexample:
  "map_option fst (rowHandler (\<lambda>k. False) fst exampleRecords [(2, ''b'')] (Some 1) True 4)
     = Some [(2, ''b''), (3, ''c''), (4, ''d''), (5, ''e'')]
   \<and> map_option fst (rowHandler (\<lambda>k. False) fst exampleRecords [(2, ''b'')] (Some 4) True 1)
     = Some []"
proof -
  have 1: "rowHandler (\<lambda>k. False) fst exampleRecords [(2, ''b'')] (Some 1) True 4
       = Some ([(2, ''b''), (3, ''c''), (4, ''d''), (5, ''e'')], Some 4)"
    by code_simp
  have 2: "rowHandler (\<lambda>k. False) fst exampleRecords [(2, ''b'')] (Some 4) True 1
       = Some ([], Some 1)"
    by code_simp
  show ?thesis unfolding 1 2 by simp
qed

subsection \<open>Plain toggles\<close>

lemma strictEquals_not_NaN: "\<not> isNaN b \<Longrightarrow> strictEquals isNaN a b = (a = b)"
  by (auto simp: strictEquals_def)

lemma plain_toggle_result:
  "\<not> isNaN (idOf r) \<Longrightarrow>
   fst (rowOnSelectionChange isNaN idOf R S anchor False r j) =
     (if selected idOf S r then filter (\<lambda>x. idOf x \<noteq> idOf r) S else uniqBy (S @ [r]) idOf)"
  by (simp add: rowOnSelectionChange_def strictEquals_not_NaN)

lemma keys_plain_toggle:
  assumes nan: "\<not> isNaN (idOf r)"
  shows "idOf ` set (fst (rowOnSelectionChange isNaN idOf R S anchor False r j)) =
     (if selected idOf S r then idOf ` set S - {idOf r} else insert (idOf r) (idOf ` set S))"
proof (cases "selected idOf S r")
  case True
  have "idOf ` set (filter (\<lambda>x. idOf x \<noteq> idOf r) S) = idOf ` set S - {idOf r}"
    using keys_filter_out [of idOf "{idOf r}" S] by simp
  with True show ?thesis by (simp only: plain_toggle_result [of isNaN idOf r, OF nan] if_True)
next
  case False
  have "idOf ` set (uniqBy (S @ [r]) idOf) = insert (idOf r) (idOf ` set S)"
    by (simp add: keys_uniqBy)
  with False show ?thesis by (simp only: plain_toggle_result [of isNaN idOf r, OF nan] if_False)
qed

text \<open>
  A click without shift on the checkbox of the row of record \<open>r\<close>, at index \<open>j\<close> of the
  record list, when the key of \<open>r\<close> is not NaN: if \<open>r\<close> is selected, the new selection
  is the old one without every entry whose key is the key of \<open>r\<close>; otherwise it is the
  old one followed by \<open>r\<close>, with one entry per key. A second click on the same row gives
  a selection whose key set is the key set of the selection before the first click.
\<close>

lemma plain_toggle_twice:
  assumes "j < length R" and nan: "\<not> isNaN (idOf (R ! j))"
  shows "let r = R ! j;
             S1 = (if selected idOf S r then filter (\<lambda>x. idOf x \<noteq> idOf r) S
                   else uniqBy (S @ [r]) idOf);
             S2 = fst (rowOnSelectionChange isNaN idOf R S1 (Some j) False r j)
         in rowHandler isNaN idOf R S anchor False j = Some (S1, Some j)
          \<and> (selected idOf S r \<longrightarrow>
               idOf ` set S1 = idOf ` set S - {idOf r} \<and> idOf r \<notin> idOf ` set S1)
          \<and> (\<not> selected idOf S r \<longrightarrow>
               distinct (map idOf S1) \<and> idOf ` set S1 = insert (idOf r) (idOf ` set S)
               \<and> (distinct (map idOf S) \<longrightarrow> S1 = S @ [r]))
          \<and> rowHandler isNaN idOf R S1 (Some j) False j = Some (S2, Some j)
          \<and> idOf ` set S2 = idOf ` set S"
proof -
  define r where "r = R ! j"
  define S1 where "S1 = (if selected idOf S r then filter (\<lambda>x. idOf x \<noteq> idOf r) S
                   else uniqBy (S @ [r]) idOf)"
  define S2 where "S2 = fst (rowOnSelectionChange isNaN idOf R S1 (Some j) False r j)"
  have nan': "\<not> isNaN (idOf r)" using nan by (simp add: r_def)
  have s1: "S1 = fst (rowOnSelectionChange isNaN idOf R S anchor False r j)"
    unfolding S1_def by (simp only: plain_toggle_result [of isNaN idOf r, OF nan'])
  have c1: "rowHandler isNaN idOf R S anchor False j = Some (S1, Some j)"
    using assms(1) s1 by (simp add: rowHandler_def rowOnSelectionChange_def r_def)
  have k1: "idOf ` set S1 =
     (if selected idOf S r then idOf ` set S - {idOf r} else insert (idOf r) (idOf ` set S))"
    unfolding s1 using nan' by (rule keys_plain_toggle)
  have c2: "selected idOf S r \<longrightarrow>
               idOf ` set S1 = idOf ` set S - {idOf r} \<and> idOf r \<notin> idOf ` set S1"
    unfolding k1 by simp
  have c3: "\<not> selected idOf S r \<longrightarrow>
               distinct (map idOf S1) \<and> idOf ` set S1 = insert (idOf r) (idOf ` set S)
               \<and> (distinct (map idOf S) \<longrightarrow> S1 = S @ [r])"
  proof
    assume n: "\<not> selected idOf S r"
    then have e: "S1 = uniqBy (S @ [r]) idOf" by (simp add: S1_def)
    have d: "distinct (map idOf S1)" unfolding e by (rule distinct_uniqBy)
    have u: "distinct (map idOf S) \<longrightarrow> S1 = S @ [r]"
    proof
      assume "distinct (map idOf S)"
      with n have "distinct (map idOf (S @ [r]))" by (simp add: selected_iff)
      then show "S1 = S @ [r]" unfolding e by (rule uniqBy_unchanged)
    qed
    from n d u show "distinct (map idOf S1) \<and> idOf ` set S1 = insert (idOf r) (idOf ` set S)
               \<and> (distinct (map idOf S) \<longrightarrow> S1 = S @ [r])"
      unfolding k1 by simp
  qed
  have c4: "rowHandler isNaN idOf R S1 (Some j) False j = Some (S2, Some j)"
    using assms(1) by (simp add: rowHandler_def rowOnSelectionChange_def S2_def r_def)
  have k2: "idOf ` set S2 =
     (if selected idOf S1 r then idOf ` set S1 - {idOf r} else insert (idOf r) (idOf ` set S1))"
    unfolding S2_def using nan' by (rule keys_plain_toggle)
  have c5: "idOf ` set S2 = idOf ` set S"
  proof (cases "selected idOf S r")
    case True
    then have "idOf r \<in> idOf ` set S" by (simp add: selected_iff)
    moreover from True have "idOf ` set S1 = idOf ` set S - {idOf r}" unfolding k1 by simp
    moreover from this have "\<not> selected idOf S1 r" by (simp add: selected_iff)
    ultimately show ?thesis unfolding k2 by auto
  next
    case False
    then have "idOf r \<notin> idOf ` set S" by (simp add: selected_iff)
    moreover from False have "idOf ` set S1 = insert (idOf r) (idOf ` set S)" unfolding k1 by simp
    moreover from this have "selected idOf S1 r" by (simp add: selected_iff)
    ultimately show ?thesis unfolding k2 by auto
  qed
  from c1 c2 c3 c4 c5 show ?thesis
    unfolding Let_def r_def [symmetric] S1_def [symmetric] S2_def [symmetric] by blast
qed

lemma plain_toggle_twice_example:
  "1 < length exampleRecords \<and>
   rowHandler (\<lambda>k. False) fst exampleRecords [(1, ''a'')] None False 1 = Some ([(1, ''a''), (2, ''b'')], Some 1) \<and>
   rowHandler (\<lambda>k. False) fst exampleRecords [(1, ''a''), (2, ''b'')] (Some 1) False 1 = Some ([(1, ''a'')], Some 1)"
proof -
  have h: "1 < length exampleRecords" by (simp add: exampleRecords_def)
  have r: "exampleRecords ! 1 = (2, ''b'')" by (simp add: exampleRecords_def)
  have s1: "(if selected fst [(1::nat, ''a'')] (2, ''b'')
             then filter (\<lambda>x. fst x \<noteq> fst (2::nat, ''b'')) [(1, ''a'')]
             else uniqBy ([(1, ''a'')] @ [(2, ''b'')]) fst) = [(1, ''a''), (2, ''b'')]"
    by code_simp
  have s2: "fst (rowOnSelectionChange (\<lambda>k. False) fst exampleRecords [(1, ''a''), (2, ''b'')] (Some 1) False
                  (2, ''b'') 1) = [(1, ''a'')]"
    by code_simp
  have f: "\<not> (\<lambda>k::nat. False) (fst (exampleRecords ! 1))" by simp
  note t = plain_toggle_twice [where j = 1 and R = exampleRecords and isNaN = "\<lambda>k. False"
      and idOf = fst and S = "[(1, ''a'')]" and anchor = None, OF h f, unfolded Let_def r s1 s2]
  from t h show ?thesis by blast
qed

text \<open>
  C6. For a record whose key is NaN the second click removes nothing: the row is found
  selected by \<open>includes\<close>, and the removal of line 243 keeps every entry, NaN being
  different from itself for \<open>!==\<close>. The selection after two clicks holds the record,
  the selection before them was empty. The removals of a shift-click and of the header
  checkbox compare like \<open>includes\<close> and do remove the record.
\<close>

theorem plain_toggle_NaN_key:
  "rowHandler idIsNaN fst nanRecords [] None False 0 = Some ([(IdNaN, ''a'')], Some 0)
   \<and> selected fst [(IdNaN, ''a'')] (nanRecords ! 0)
   \<and> rowHandler idIsNaN fst nanRecords [(IdNaN, ''a'')] (Some 0) False 0
       = Some ([(IdNaN, ''a'')], Some 0)
   \<and> fst ` set [(IdNaN, ''a'')] \<noteq> fst ` set ([] :: (idValue \<times> string) list)
   \<and> rowHandler idIsNaN fst nanRecords [(IdNaN, ''a'')] (Some 0) True 0 = Some ([], Some 0)
   \<and> headerOnSelectionChange fst [(IdNaN, ''a'')] [(IdNaN, ''a'')] = []"
proof -
  have 1: "rowHandler idIsNaN fst nanRecords [] None False 0 = Some ([(IdNaN, ''a'')], Some 0)"
    by code_simp
  have 2: "selected fst [(IdNaN, ''a'')] (nanRecords ! 0)"
    by code_simp
  have 3: "rowHandler idIsNaN fst nanRecords [(IdNaN, ''a'')] (Some 0) False 0
       = Some ([(IdNaN, ''a'')], Some 0)"
    by code_simp
  have 4: "fst ` set [(IdNaN, ''a'')] \<noteq> fst ` set ([] :: (idValue \<times> string) list)"
    by simp
  have 5: "rowHandler idIsNaN fst nanRecords [(IdNaN, ''a'')] (Some 0) True 0 = Some ([], Some 0)"
    by code_simp
  have 6: "headerOnSelectionChange fst [(IdNaN, ''a'')] [(IdNaN, ''a'')] = []"
    by code_simp
  from 1 2 3 4 5 6 show ?thesis by blast
qed

subsection \<open>The header checkbox\<close>

lemma allRecordsSelected_iff:
  "allRecordsSelected idOf R S \<longleftrightarrow> S \<noteq> [] \<and> idOf ` set R \<subseteq> idOf ` set S"
  by (auto simp: allRecordsSelected_def hasRecordsAndSelectedRecords_def recordIds_def
      array_includes_def list_all_iff)

lemma keys_header:
  "idOf ` set (headerOnSelectionChange idOf R S) =
     (if allRecordsSelected idOf R S then idOf ` set S - idOf ` set R
      else idOf ` set S \<union> idOf ` set R)"
proof (cases "allRecordsSelected idOf R S")
  case True
  then have "headerOnSelectionChange idOf R S = filter (\<lambda>x. idOf x \<notin> idOf ` set R) S"
    by (simp add: headerOnSelectionChange_def recordIds_def array_includes_def)
  with True show ?thesis by (simp only: keys_filter_out if_True)
next
  case False
  then show ?thesis
    by (simp add: headerOnSelectionChange_def keys_uniqBy image_Un)
qed

lemma keys_header_all:
  "allRecordsSelected idOf R S \<Longrightarrow>
   idOf ` set (headerOnSelectionChange idOf R S) = idOf ` set S - idOf ` set R"
  by (simp only: keys_header if_True)

lemma keys_header_not_all:
  "\<not> allRecordsSelected idOf R S \<Longrightarrow>
   idOf ` set (headerOnSelectionChange idOf R S) = idOf ` set S \<union> idOf ` set R"
  by (simp only: keys_header if_False)

lemma allRecordsSelectedD:
  "allRecordsSelected idOf R S \<Longrightarrow> idOf ` set R \<subseteq> idOf ` set S"
  by (simp only: allRecordsSelected_iff)

lemma keys_header_twice:
  "idOf ` set (headerOnSelectionChange idOf R (headerOnSelectionChange idOf R S)) =
     (if allRecordsSelected idOf R S then idOf ` set S else idOf ` set S - idOf ` set R)"
proof -
  define S1 where "S1 = headerOnSelectionChange idOf R S"
  define KS where "KS = idOf ` set S"
  define KR where "KR = idOf ` set R"
  define K1 where "K1 = idOf ` set S1"
  define K2 where "K2 = idOf ` set (headerOnSelectionChange idOf R S1)"
  have goal: "K2 = (if allRecordsSelected idOf R S then KS else KS - KR)"
  proof (cases "allRecordsSelected idOf R S")
    case True
    have sub: "KR \<subseteq> KS" unfolding KR_def KS_def using True by (rule allRecordsSelectedD)
    have k1: "K1 = KS - KR"
      unfolding K1_def S1_def KS_def KR_def using True by (rule keys_header_all)
    have "K2 = KS"
    proof (cases "allRecordsSelected idOf R S1")
      case a: True
      have "KR \<subseteq> K1" unfolding KR_def K1_def using a by (rule allRecordsSelectedD)
      with k1 have "KR = {}" by blast
      moreover have "K2 = K1 - KR"
        unfolding K2_def K1_def KR_def using a by (rule keys_header_all)
      ultimately show ?thesis using k1 by blast
    next
      case False
      have "K2 = K1 \<union> KR"
        unfolding K2_def K1_def KR_def using False by (rule keys_header_not_all)
      with k1 sub show ?thesis by blast
    qed
    with True show ?thesis by (simp only: if_True)
  next
    case False
    have k1: "K1 = KS \<union> KR"
      unfolding K1_def S1_def KS_def KR_def using False by (rule keys_header_not_all)
    have "K2 = KS - KR"
    proof (cases "allRecordsSelected idOf R S1")
      case True
      have "K2 = K1 - KR"
        unfolding K2_def K1_def KR_def using True by (rule keys_header_all)
      with k1 show ?thesis by blast
    next
      case n: False
      have "KR \<subseteq> K1" unfolding k1 by blast
      then have "idOf ` set R \<subseteq> idOf ` set S1" unfolding KR_def K1_def .
      with n have "S1 = []" unfolding allRecordsSelected_iff [of idOf R S1] by blast
      then have "K1 = {}" unfolding K1_def by simp
      moreover have "K2 = K1 \<union> KR"
        unfolding K2_def K1_def KR_def using n by (rule keys_header_not_all)
      ultimately show ?thesis using k1 by blast
    qed
    with False show ?thesis by (simp only: if_False)
  qed
  then show ?thesis unfolding K2_def S1_def KS_def KR_def .
qed

text \<open>
  C2, amended. Two clicks in a row on the header checkbox, with the same records, give a
  selection whose key set is that of the original selection when, at the first click, every
  visible record was selected; otherwise the first click selects all visible records and
  the second removes them, so the key set is the original one without the visible keys.
  The original key set comes back exactly when at the first click all visible records were
  selected or none was.
\<close>

theorem toggle_all_twice:
  "idOf ` set (headerOnSelectionChange idOf R (headerOnSelectionChange idOf R S)) =
     (if allRecordsSelected idOf R S then idOf ` set S else idOf ` set S - idOf ` set R)
   \<and> ((idOf ` set (headerOnSelectionChange idOf R (headerOnSelectionChange idOf R S))
         = idOf ` set S)
        = (allRecordsSelected idOf R S \<or> idOf ` set S \<inter> idOf ` set R = {}))"
proof (cases "allRecordsSelected idOf R S")
  case True
  then show ?thesis by (simp only: keys_header_twice if_True simp_thms)
next
  case False
  have "(idOf ` set S - idOf ` set R = idOf ` set S) = (idOf ` set S \<inter> idOf ` set R = {})"
    by blast
  with False show ?thesis by (simp only: keys_header_twice if_False simp_thms)
qed

text \<open>
  With the records of keys 1 and 2 visible and the record of key 1 selected, the first click
  selects both and the second removes both: the key 1 is lost.
\<close>

theorem toggle_all_twice_counterexample:
  "fst ` set (headerOnSelectionChange fst [(1::nat, ''a''), (2, ''b'')]
                (headerOnSelectionChange fst [(1, ''a''), (2, ''b'')] [(1, ''a'')]))
     \<noteq> fst ` set [(1::nat, ''a'')]"
proof -
  have 1: "headerOnSelectionChange fst [(1::nat, ''a''), (2, ''b'')] [(1, ''a'')]
           = [(1, ''a''), (2, ''b'')]"
    by code_simp
  have 2: "headerOnSelectionChange fst [(1::nat, ''a''), (2, ''b'')] [(1, ''a''), (2, ''b'')]
           = []"
    by code_simp
  show ?thesis unfolding 1 2 by simp
qed

subsection \<open>Duplicate keys\<close>

text \<open>
  C9. The selection produced by an operation that adds records has no two entries with the
  same key, whatever the selection it started from: a click on the checkbox of a row that
  is not selected, with or without shift and whatever the anchor, and a click on the header
  checkbox when not all visible records are selected.
\<close>

theorem add_operations_distinct_keys:
  "(\<not> selected idOf S r \<longrightarrow>
      distinct (map idOf (fst (rowOnSelectionChange isNaN idOf R S anchor shiftKey r j))))
   \<and> (\<not> allRecordsSelected idOf R S \<longrightarrow>
      distinct (map idOf (headerOnSelectionChange idOf R S)))"
  by (simp add: rowOnSelectionChange_def headerOnSelectionChange_def distinct_uniqBy
      split: option.split)

theorem add_operations_distinct_keys_witness:
  "\<not> selected fst [(1::nat, ''a''), (1, ''x'')] (2, ''b'') \<and>
   fst (rowOnSelectionChange (\<lambda>k. False) fst exampleRecords [(1, ''a''), (1, ''x'')] (Some 3) True (2, ''b'') 1)
     = [(1, ''a''), (2, ''b''), (3, ''c''), (4, ''d'')] \<and>
   distinct (map fst (fst (rowOnSelectionChange (\<lambda>k. False) fst exampleRecords [(1, ''a''), (1, ''x'')]
                             (Some 3) True (2, ''b'') 1))) \<and>
   \<not> allRecordsSelected fst exampleRecords [(1, ''a''), (1, ''x'')] \<and>
   distinct (map fst (headerOnSelectionChange fst exampleRecords [(1, ''a''), (1, ''x'')]))"
proof -
  have n: "\<not> selected fst [(1::nat, ''a''), (1, ''x'')] (2, ''b'')" by code_simp
  have a: "\<not> allRecordsSelected fst exampleRecords [(1, ''a''), (1, ''x'')]" by code_simp
  have v: "fst (rowOnSelectionChange (\<lambda>k. False) fst exampleRecords [(1, ''a''), (1, ''x'')] (Some 3) True (2, ''b'') 1)
     = [(1, ''a''), (2, ''b''), (3, ''c''), (4, ''d'')]" by code_simp
  from add_operations_distinct_keys [where idOf = fst and S = "[(1, ''a''), (1, ''x'')]"
      and r = "(2, ''b'')" and R = exampleRecords and anchor = "Some 3" and shiftKey = True
      and j = 1 and isNaN = "\<lambda>k. False"] n a v
  show ?thesis by simp
qed

subsection \<open>The anchor and a change of the records\<close>

lemma shift_click_without_anchor:
  "rowOnSelectionChange isNaN idOf R S None True r j = rowOnSelectionChange isNaN idOf R S None False r j"
  by (simp add: rowOnSelectionChange_def)

lemma recordIdsEffect_resets:
  "previous \<noteq> current \<Longrightarrow> lastSelectionChangeIndex (recordIdsEffect previous current s) = None"
  by (simp add: recordIdsEffect_def)

text \<open>
  C4. The anchor is reset when \<open>recordIdsString\<close> changes, and a shift-click without
  anchor is a plain toggle. But the key sequences \<open>x:y, z\<close> and \<open>x, y:z\<close> differ and
  give the same string \<open>x:y:z\<close>: after a click on row 1 of the first list and the change
  to the second list the anchor is still 1, and a shift-click on row 0 selects the rows 0
  to 1, where a plain toggle selects row 0 alone.
\<close>

theorem recordIdsString_collision:
  "recordIds fst oldRecords \<noteq> recordIds fst newRecords
   \<and> recordIdsString (\<lambda>k. k) fst (Some oldRecords) = ''x:y:z''
   \<and> recordIdsString (\<lambda>k. k) fst (Some newRecords) = ''x:y:z''
   \<and> rowHandler (\<lambda>k. False) fst oldRecords [] None False 1 = Some ([(''z'', 2)], Some 1)
   \<and> lastSelectionChangeIndex
        (recordsChanged (\<lambda>k. k) fst (Some oldRecords) (Some newRecords)
           ((initialState :: (string \<times> nat) state)\<lparr>lastSelectionChangeIndex := Some 1\<rparr>)) = Some 1
   \<and> rowHandler (\<lambda>k. False) fst newRecords [] (Some 1) True 0 = Some ([(''x'', 3), (''y:z'', 4)], Some 0)
   \<and> rowHandler (\<lambda>k. False) fst newRecords [] None True 0 = Some ([(''x'', 3)], Some 0)"
proof -
  have 1: "recordIds fst oldRecords \<noteq> recordIds fst newRecords"
    by (simp add: recordIds_def oldRecords_def newRecords_def)
  have 2: "recordIdsString (\<lambda>k. k) fst (Some oldRecords) = ''x:y:z''"
    by (simp add: recordIdsString_def recordIds_def oldRecords_def)
  have 3: "recordIdsString (\<lambda>k. k) fst (Some newRecords) = ''x:y:z''"
    by (simp add: recordIdsString_def recordIds_def newRecords_def)
  have 4: "rowHandler (\<lambda>k. False) fst oldRecords [] None False 1 = Some ([(''z'', 2)], Some 1)"
    by code_simp
  have 5: "lastSelectionChangeIndex
        (recordsChanged (\<lambda>k. k) fst (Some oldRecords) (Some newRecords)
           ((initialState :: (string \<times> nat) state)\<lparr>lastSelectionChangeIndex := Some 1\<rparr>)) = Some 1"
    unfolding recordsChanged_def 2 3 by (simp add: recordIdsEffect_def)
  have 6: "rowHandler (\<lambda>k. False) fst newRecords [] (Some 1) True 0 = Some ([(''x'', 3), (''y:z'', 4)], Some 0)"
    by code_simp
  have 7: "rowHandler (\<lambda>k. False) fst newRecords [] None True 0 = Some ([(''x'', 3)], Some 0)"
    by code_simp
  from 1 2 3 4 5 6 7 show ?thesis by blast
qed

subsection \<open>Binary64 rounding\<close>

text \<open>
  The rounding agrees with known values: the binary64 number nearest to 0.1, and a tie
  above \<open>2 ^ 53\<close>, which goes to the even significand.
\<close>

lemma round64_tenth: "round64 (1 / 10) = Finite (3602879701896397 / 36028797018963968)"
  by code_simp

lemma round64_ties_to_even:
  "round64 9007199254740993 = Finite 9007199254740992 \<and>
   round64 9007199254740995 = Finite 9007199254740996"
  by code_simp

text \<open>
  An integer below \<open>2 ^ 53\<close> in magnitude is a binary64 number, so the difference of two
  integer sizes is exact as long as it stays below that bound.
\<close>

lemma exponentDown_nonneg: "0 \<le> exponentDown a"
proof (induction a rule: exponentDown.induct)
  case (1 a)
  show ?case
  proof (cases "a < 2")
    case True
    then show ?thesis by (subst exponentDown.simps) simp
  next
    case False
    with 1 have "0 \<le> exponentDown (a / 2)" by simp
    with False show ?thesis by (subst exponentDown.simps) simp
  qed
qed

lemma exponentDown_lower: "1 \<le> a \<Longrightarrow> 2 ^ nat (exponentDown a) \<le> a"
proof (induction a rule: exponentDown.induct)
  case (1 a)
  show ?case
  proof (cases "a < 2")
    case True
    then have "exponentDown a = 0" by (subst exponentDown.simps) simp
    with "1.prems" show ?thesis by simp
  next
    case False
    then have h: "1 \<le> a / 2" by simp
    from False have e: "exponentDown a = 1 + exponentDown (a / 2)"
      by (subst exponentDown.simps) simp
    have "nat (1 + exponentDown (a / 2)) = Suc (nat (exponentDown (a / 2)))"
      using exponentDown_nonneg [of "a / 2"] by simp
    moreover from "1.IH" [OF False h] have "2 * 2 ^ nat (exponentDown (a / 2)) \<le> a" by simp
    ultimately show ?thesis unfolding e by simp
  qed
qed

lemma roundHalfEven_of_int: "roundHalfEven (of_int k) = k"
  by (simp add: roundHalfEven_def)

lemma pow2_1024_gt: "a < 2 ^ 53 \<Longrightarrow> \<not> pow2 1024 \<le> a"
proof -
  assume a: "a < 2 ^ 53"
  have "(2::rat) ^ 53 \<le> 2 ^ nat 1024" by (rule power_increasing) simp_all
  moreover have "pow2 1024 = 2 ^ nat 1024"
    by (simp only: pow2_def zero_le_numeral if_True)
  ultimately have "a < pow2 1024" using a by (simp only: less_le_trans)
  then show ?thesis by (simp only: not_le)
qed

lemma pow2_below_52: "0 \<le> e \<Longrightarrow> e \<le> 52 \<Longrightarrow> pow2 (e - 52) = 1 / 2 ^ nat (52 - e)"
proof (cases "e = 52")
  case True
  then show ?thesis by (simp add: pow2_def)
next
  case False
  assume "e \<le> 52"
  with False have "e < 52" by simp
  then show ?thesis by (simp add: pow2_def)
qed

lemma exponent_below_53:
  assumes "1 \<le> a" and "a < 2 ^ 53"
  shows "0 \<le> exponentDown a \<and> exponentDown a \<le> 52"
proof -
  have e0: "0 \<le> exponentDown a" by (rule exponentDown_nonneg)
  have "(2::rat) ^ nat (exponentDown a) \<le> a" using assms(1) by (rule exponentDown_lower)
  from this assms(2) have "(2::rat) ^ nat (exponentDown a) < 2 ^ 53" by (rule le_less_trans)
  then have "nat (exponentDown a) < 53" by (rule power_less_imp_less_exp [rotated]) simp
  with e0 show ?thesis by simp
qed

lemma round64_exact:
  assumes a1: "1 \<le> \<bar>x\<bar>" and a53: "\<bar>x\<bar> < 2 ^ 53" and int: "x = of_int n"
  shows "round64 x = Finite x"
proof -
  define e where "e = exponentDown \<bar>x\<bar>"
  define k where "k = nat (52 - e)"
  have eb: "0 \<le> e \<and> e \<le> 52"
    unfolding e_def using a1 a53 by (rule exponent_below_53)
  have fl: "floorLog2 \<bar>x\<bar> = e" using a1 by (simp add: floorLog2_def e_def)
  have mx: "max e (- 1022) = e" using eb by simp
  have q: "pow2 (e - 52) = 1 / 2 ^ k" unfolding k_def using eb by (simp only: pow2_below_52)
  have ax: "\<bar>x\<bar> = of_int \<bar>n\<bar>" unfolding int by simp
  have aq: "\<bar>x\<bar> / (1 / 2 ^ k) = of_int (\<bar>n\<bar> * 2 ^ k)" unfolding ax by simp
  have "of_int (roundHalfEven (\<bar>x\<bar> / (1 / 2 ^ k))) * (1 / 2 ^ k)
          = (of_int (\<bar>n\<bar> * 2 ^ k) :: rat) * (1 / 2 ^ k)"
    unfolding aq roundHalfEven_of_int ..
  also have "\<dots> = \<bar>x\<bar>" unfolding ax by simp
  finally have y: "of_int (roundHalfEven (\<bar>x\<bar> / (1 / 2 ^ k))) * (1 / 2 ^ k) = \<bar>x\<bar>" .
  have big: "pow2 1024 \<le> \<bar>x\<bar> \<longleftrightarrow> False" using pow2_1024_gt [OF a53] by simp
  have sg: "sgn x * \<bar>x\<bar> = x" by (simp add: sgn_mult_abs)
  have nz: "x = 0 \<longleftrightarrow> False" using a1 by auto
  show ?thesis
    unfolding round64_def Let_def fl mx q y big sg nz by (simp only: if_False)
qed

lemma round64_of_int:
  assumes "\<bar>n\<bar> < 2 ^ 53"
  shows "round64 (of_int n) = Finite (of_int n)"
proof (cases "n = 0")
  case True
  then show ?thesis by (simp add: round64_def)
next
  case False
  then have "1 \<le> \<bar>n\<bar>" by simp
  then have "(1::rat) \<le> of_int \<bar>n\<bar>" by (simp only: of_int_1_le_iff)
  then have a1: "1 \<le> \<bar>of_int n :: rat\<bar>" by simp
  have "(of_int \<bar>n\<bar> :: rat) < of_int (2 ^ 53)" using assms by (simp only: of_int_less_iff)
  then have a53: "\<bar>of_int n :: rat\<bar> < 2 ^ 53" by simp
  from a1 a53 show ?thesis by (rule round64_exact) simp
qed

lemma number_minus_integers:
  "\<bar>a - b\<bar> < 2 ^ 53 \<Longrightarrow> number_minus (of_int a) (of_int b) = Finite (of_int (a - b))"
  using round64_of_int [of "a - b"] by (simp add: number_minus_def)

lemma Math_round_of_int: "Math_round (Finite (of_int n)) = Finite (of_int n)"
proof -
  have "\<lfloor>(of_int n :: rat) + 1 / 2\<rfloor> = n" by (rule floor_unique) simp_all
  then show ?thesis by simp
qed

subsection \<open>Scroll flags\<close>

lemma Math_round_Finite_iff:
  "(Math_round (Finite x) = Finite (of_int n)) = (of_int n \<le> x + 1 / 2 \<and> x + 1 / 2 < of_int n + 1)"
  by (simp add: floor_eq_iff)

text \<open>The rounded differences of the example measurements.\<close>

lemma rounded_600_100: "Math_round (number_minus 600 100) = Finite 500"
  by code_simp

lemma rounded_jitter: "Math_round (number_minus (2399 / 4) 100) = Finite 500"
  by code_simp

lemma rounded_700_100: "Math_round (number_minus 700 100) = Finite 600"
  by code_simp

lemma rounded_inexact:
  "Math_round (number_minus (8808407552439091 / 17592186044416)
                 (3602879701896397 / 18014398509481984)) = Finite 501"
  by code_simp

lemma rounded_400_0: "Math_round (number_minus 400 0) = Finite 400"
  by code_simp

lemma rounded_500: "Math_round (Finite 500) = Finite 500"
  by code_simp

text \<open>
  C5. When no fetch is running: if the table is not higher than the viewport, both vertical
  flags are set; otherwise \<open>scrolledToTop\<close> is set exactly when the scroll offset is
  zero, and \<open>scrolledToBottom\<close> exactly when the rounded difference of table height and
  offset is the rounded viewport height. For a table 600 high in a viewport 500 high,
  scrolled by 100, this sets \<open>scrolledToBottom\<close> and clears \<open>scrolledToTop\<close>.
  The rounding is to the nearest integer, a tie going up: a remainder of 499.75 counts
  as 500 and sets \<open>scrolledToBottom\<close>, a remainder of 600 clears it; and the difference
  is the binary64 one: for the numbers nearest to 500.7 and 0.2 it is 500.5, which rounds
  to 501 and clears the flag.
\<close>

theorem vertical_flags:
  "let s' = onScrollPositionChange False m s in
     (tableHeight m \<le> scrollViewportHeight m \<longrightarrow> scrolledToTop s' \<and> scrolledToBottom s')
   \<and> (\<not> tableHeight m \<le> scrollViewportHeight m \<longrightarrow>
        (scrolledToTop s' = (scrollTop m = 0))
      \<and> (scrolledToBottom s'
           = (Math_round (number_minus (tableHeight m) (scrollTop m))
                = Math_round (Finite (scrollViewportHeight m)))))
   \<and> (tableHeight m = 600 \<and> scrollViewportHeight m = 500 \<and> scrollTop m = 100 \<longrightarrow>
        scrolledToBottom s' \<and> \<not> scrolledToTop s')
   \<and> (tableHeight m = 2399 / 4 \<and> scrollViewportHeight m = 500 \<and> scrollTop m = 100 \<longrightarrow>
        scrolledToBottom s')
   \<and> (tableHeight m = 700 \<and> scrollViewportHeight m = 500 \<and> scrollTop m = 100 \<longrightarrow>
        \<not> scrolledToBottom s')
   \<and> (tableHeight m = 8808407552439091 / 17592186044416 \<and> scrollViewportHeight m = 500 \<and>
      scrollTop m = 3602879701896397 / 18014398509481984 \<longrightarrow>
        \<not> scrolledToBottom s')
   \<and> (\<forall>x n. (Math_round (Finite x) = Finite (of_int n))
              = (of_int n \<le> x + 1 / 2 \<and> x + 1 / 2 < of_int n + 1))"
proof -
  define s' where "s' = onScrollPositionChange False m s"
  have c1: "tableHeight m \<le> scrollViewportHeight m \<longrightarrow> scrolledToTop s' \<and> scrolledToBottom s'"
    by (simp add: s'_def onScrollPositionChange_def Let_def)
  have c2: "\<not> tableHeight m \<le> scrollViewportHeight m \<longrightarrow>
        (scrolledToTop s' = (scrollTop m = 0))
      \<and> (scrolledToBottom s'
           = (Math_round (number_minus (tableHeight m) (scrollTop m))
                = Math_round (Finite (scrollViewportHeight m))))"
    by (simp add: s'_def onScrollPositionChange_def Let_def)
  have c3: "tableHeight m = 600 \<and> scrollViewportHeight m = 500 \<and>
      scrollTop m = 100 \<longrightarrow>
        scrolledToBottom s' \<and> \<not> scrolledToTop s'"
  proof
    assume "tableHeight m = 600 \<and> scrollViewportHeight m = 500 \<and>
      scrollTop m = 100"
    then have h: "tableHeight m = 600" and v: "scrollViewportHeight m = 500"
      and o: "scrollTop m = 100"
      by blast+
    have "\<not> tableHeight m \<le> scrollViewportHeight m" unfolding h v by simp
    with c2 have t: "scrolledToTop s' = (scrollTop m = 0)"
      and b: "scrolledToBottom s'
           = (Math_round (number_minus (tableHeight m) (scrollTop m))
                = Math_round (Finite (scrollViewportHeight m)))"
      by blast+
    have t': "\<not> scrolledToTop s'" unfolding t o by simp
    have b': "scrolledToBottom s' = True"
      unfolding b h v o rounded_600_100 rounded_500 by simp
    from t' b' show "scrolledToBottom s' \<and> \<not> scrolledToTop s'" by simp
  qed
  have c4: "tableHeight m = 2399 / 4 \<and> scrollViewportHeight m = 500 \<and>
      scrollTop m = 100 \<longrightarrow>
        scrolledToBottom s'"
  proof
    assume "tableHeight m = 2399 / 4 \<and> scrollViewportHeight m = 500 \<and>
      scrollTop m = 100"
    then have h: "tableHeight m = 2399 / 4" and v: "scrollViewportHeight m = 500"
      and o: "scrollTop m = 100"
      by blast+
    have "\<not> tableHeight m \<le> scrollViewportHeight m" unfolding h v by simp
    with c2 have t: "scrolledToTop s' = (scrollTop m = 0)"
      and b: "scrolledToBottom s'
           = (Math_round (number_minus (tableHeight m) (scrollTop m))
                = Math_round (Finite (scrollViewportHeight m)))"
      by blast+
    have t': "\<not> scrolledToTop s'" unfolding t o by simp
    have b': "scrolledToBottom s' = True"
      unfolding b h v o rounded_jitter rounded_500 by simp
    from t' b' show "scrolledToBottom s'" by simp
  qed
  have c5: "tableHeight m = 700 \<and> scrollViewportHeight m = 500 \<and>
      scrollTop m = 100 \<longrightarrow>
        \<not> scrolledToBottom s'"
  proof
    assume "tableHeight m = 700 \<and> scrollViewportHeight m = 500 \<and>
      scrollTop m = 100"
    then have h: "tableHeight m = 700" and v: "scrollViewportHeight m = 500"
      and o: "scrollTop m = 100"
      by blast+
    have "\<not> tableHeight m \<le> scrollViewportHeight m" unfolding h v by simp
    with c2 have t: "scrolledToTop s' = (scrollTop m = 0)"
      and b: "scrolledToBottom s'
           = (Math_round (number_minus (tableHeight m) (scrollTop m))
                = Math_round (Finite (scrollViewportHeight m)))"
      by blast+
    have t': "\<not> scrolledToTop s'" unfolding t o by simp
    have b': "scrolledToBottom s' = False"
      unfolding b h v o rounded_700_100 rounded_500 by simp
    from t' b' show "\<not> scrolledToBottom s'" by simp
  qed
  have c6: "tableHeight m = 8808407552439091 / 17592186044416 \<and> scrollViewportHeight m = 500 \<and>
      scrollTop m = 3602879701896397 / 18014398509481984 \<longrightarrow>
        \<not> scrolledToBottom s'"
  proof
    assume "tableHeight m = 8808407552439091 / 17592186044416 \<and> scrollViewportHeight m = 500 \<and>
      scrollTop m = 3602879701896397 / 18014398509481984"
    then have h: "tableHeight m = 8808407552439091 / 17592186044416" and v: "scrollViewportHeight m = 500"
      and o: "scrollTop m = 3602879701896397 / 18014398509481984"
      by blast+
    have "\<not> tableHeight m \<le> scrollViewportHeight m" unfolding h v by simp
    with c2 have t: "scrolledToTop s' = (scrollTop m = 0)"
      and b: "scrolledToBottom s'
           = (Math_round (number_minus (tableHeight m) (scrollTop m))
                = Math_round (Finite (scrollViewportHeight m)))"
      by blast+
    have t': "\<not> scrolledToTop s'" unfolding t o by simp
    have b': "scrolledToBottom s' = False"
      unfolding b h v o rounded_inexact rounded_500 by simp
    from t' b' show "\<not> scrolledToBottom s'" by simp
  qed
  have c7: "\<forall>x n. (Math_round (Finite x) = Finite (of_int n))
              = (of_int n \<le> x + 1 / 2 \<and> x + 1 / 2 < of_int n + 1)"
    by (simp only: Math_round_Finite_iff simp_thms)
  from c1 c2 c3 c4 c5 c6 c7 show ?thesis
    unfolding Let_def s'_def [symmetric] by blast
qed

theorem vertical_flags_witness:
  "tableHeight narrowMeasures \<le> scrollViewportHeight narrowMeasures
   \<and> scrolledToTop (onScrollPositionChange False narrowMeasures (initialState :: unit state))
   \<and> scrolledToBottom (onScrollPositionChange False narrowMeasures (initialState :: unit state))
   \<and> \<not> tableHeight overflowMeasures \<le> scrollViewportHeight overflowMeasures
   \<and> tableHeight overflowMeasures = 600 \<and> scrollViewportHeight overflowMeasures = 500
   \<and> scrollTop overflowMeasures = 100
   \<and> scrolledToBottom (onScrollPositionChange False overflowMeasures (initialState :: unit state))
   \<and> \<not> scrolledToTop (onScrollPositionChange False overflowMeasures (initialState :: unit state))
   \<and> tableHeight jitterMeasures = 2399 / 4 \<and> scrollViewportHeight jitterMeasures = 500
   \<and> scrollTop jitterMeasures = 100
   \<and> scrolledToBottom (onScrollPositionChange False jitterMeasures (initialState :: unit state))
   \<and> tableHeight tallMeasures = 700 \<and> scrollViewportHeight tallMeasures = 500
   \<and> scrollTop tallMeasures = 100
   \<and> \<not> scrolledToBottom (onScrollPositionChange False tallMeasures (initialState :: unit state))
   \<and> tableHeight inexactMeasures = 8808407552439091 / 17592186044416
   \<and> scrollViewportHeight inexactMeasures = 500
   \<and> scrollTop inexactMeasures = 3602879701896397 / 18014398509481984
   \<and> \<not> scrolledToBottom (onScrollPositionChange False inexactMeasures (initialState :: unit state))"
proof -
  have a: "tableHeight narrowMeasures \<le> scrollViewportHeight narrowMeasures"
    by (simp add: narrowMeasures_def)
  have b: "tableHeight overflowMeasures = 600 \<and> scrollViewportHeight overflowMeasures = 500 \<and>
           scrollTop overflowMeasures = 100"
    by (simp add: overflowMeasures_def)
  have b': "\<not> tableHeight overflowMeasures \<le> scrollViewportHeight overflowMeasures"
    by (simp add: overflowMeasures_def)
  have c: "tableHeight jitterMeasures = 2399 / 4 \<and> scrollViewportHeight jitterMeasures = 500 \<and>
           scrollTop jitterMeasures = 100"
    by (simp add: jitterMeasures_def)
  have d: "tableHeight tallMeasures = 700 \<and> scrollViewportHeight tallMeasures = 500 \<and>
           scrollTop tallMeasures = 100"
    by (simp add: tallMeasures_def)
  have e: "tableHeight inexactMeasures = 8808407552439091 / 17592186044416 \<and>
           scrollViewportHeight inexactMeasures = 500 \<and>
           scrollTop inexactMeasures = 3602879701896397 / 18014398509481984"
    by (simp add: inexactMeasures_def)
  note t1 = vertical_flags [of narrowMeasures "initialState :: unit state", unfolded Let_def]
  note t2 = vertical_flags [of overflowMeasures "initialState :: unit state", unfolded Let_def]
  note t3 = vertical_flags [of jitterMeasures "initialState :: unit state", unfolded Let_def]
  note t4 = vertical_flags [of tallMeasures "initialState :: unit state", unfolded Let_def]
  note t5 = vertical_flags [of inexactMeasures "initialState :: unit state", unfolded Let_def]
  from t1 a have 1: "scrolledToTop (onScrollPositionChange False narrowMeasures (initialState :: unit state))
     \<and> scrolledToBottom (onScrollPositionChange False narrowMeasures (initialState :: unit state))"
    by blast
  from t2 b have 2: "scrolledToBottom (onScrollPositionChange False overflowMeasures (initialState :: unit state))
     \<and> \<not> scrolledToTop (onScrollPositionChange False overflowMeasures (initialState :: unit state))"
    by blast
  from t3 c have 3: "scrolledToBottom (onScrollPositionChange False jitterMeasures (initialState :: unit state))"
    by blast
  from t4 d have 4: "\<not> scrolledToBottom (onScrollPositionChange False tallMeasures (initialState :: unit state))"
    by blast
  from t5 e have 5: "\<not> scrolledToBottom (onScrollPositionChange False inexactMeasures (initialState :: unit state))"
    by blast
  from a 1 b' b 2 c 3 d 4 e 5 show ?thesis by blast
qed

text \<open>
  For integer sizes and offsets the difference is exact and rounding changes nothing: a
  table higher than its viewport is scrolled to the bottom exactly when height minus offset
  is the viewport height.
\<close>

lemma scrolledToBottom_integers:
  assumes c: "tableHeight m = of_int c" and o: "scrollTop m = of_int t"
    and v: "scrollViewportHeight m = of_int v" and over: "v < c" and small: "\<bar>c - t\<bar> < 2 ^ 53"
  shows "scrolledToBottom (onScrollPositionChange False m s) = (c - t = v)"
proof -
  have n: "\<not> tableHeight m \<le> scrollViewportHeight m" unfolding c v using over by simp
  have d: "number_minus (tableHeight m) (scrollTop m) = Finite (of_int (c - t))"
    unfolding c o using small by (rule number_minus_integers)
  have "scrolledToBottom (onScrollPositionChange False m s)
          = (Math_round (number_minus (tableHeight m) (scrollTop m))
               = Math_round (Finite (scrollViewportHeight m)))"
    using n by (simp add: onScrollPositionChange_def Let_def del: Math_round.simps)
  also have "\<dots> = ((of_int (c - t) :: rat) = of_int v)"
    unfolding d v Math_round_of_int by (simp only: number.inject)
  also have "\<dots> = (c - t = v)" by (simp only: of_int_eq_iff)
  finally show ?thesis .
qed

text \<open>
  Where the content is at least as large as the viewport, the flags for left and right
  computed from a content size, a viewport size and an offset are the flags for top and
  bottom computed from the same three values; and a table exactly as wide as the viewport
  has both horizontal flags set.
\<close>

lemma horizontal_flags_symmetric:
  "(tableWidth m = tableHeight m' \<and> scrollViewportWidth m = scrollViewportHeight m' \<and>
    scrollLeft m = scrollTop m' \<and> scrollViewportWidth m \<le> tableWidth m \<longrightarrow>
      scrolledToLeft (onScrollPositionChange False m s)
        = scrolledToTop (onScrollPositionChange False m' s')
    \<and> scrolledToRight (onScrollPositionChange False m s)
        = scrolledToBottom (onScrollPositionChange False m' s'))
   \<and> (tableWidth m = scrollViewportWidth m \<longrightarrow>
      scrolledToLeft (onScrollPositionChange False m s)
    \<and> scrolledToRight (onScrollPositionChange False m s))"
  by (auto simp: onScrollPositionChange_def Let_def)

text \<open>
  C3. A table 400 wide and high in a viewport 500 wide and high, not scrolled and with no
  fetch running: the content is not larger than the viewport in either direction and the
  three values are the same for widths and heights. The vertical test of line 105 is
  \<open><=\<close> and sets \<open>scrolledToTop\<close> and \<open>scrolledToBottom\<close>; the horizontal test of line
  114 is \<open>===\<close> and leaves \<open>scrolledToRight\<close> to the comparison of the rounded sizes,
  400 and 500: the flag is cleared, and differs from \<open>scrolledToBottom\<close>.
\<close>

theorem horizontal_flags_narrow_table:
  "tableWidth narrowMeasures \<le> scrollViewportWidth narrowMeasures
   \<and> tableWidth narrowMeasures = tableHeight narrowMeasures
   \<and> scrollViewportWidth narrowMeasures = scrollViewportHeight narrowMeasures
   \<and> scrollLeft narrowMeasures = scrollTop narrowMeasures
   \<and> scrolledToLeft (onScrollPositionChange False narrowMeasures (initialState :: unit state))
   \<and> \<not> scrolledToRight (onScrollPositionChange False narrowMeasures (initialState :: unit state))
   \<and> scrolledToTop (onScrollPositionChange False narrowMeasures (initialState :: unit state))
   \<and> scrolledToBottom (onScrollPositionChange False narrowMeasures (initialState :: unit state))"
  by (simp add: onScrollPositionChange_def narrowMeasures_def initialState_def Let_def
      rounded_400_0 rounded_500 del: Math_round.simps)

subsection \<open>Fetching\<close>

lemma scroll_while_fetching_keeps_menu:
  "contextMenuInfo (onScrollPositionChange True m s) = contextMenuInfo s"
  by (simp add: onScrollPositionChange_def Let_def)

lemma scrolls_while_fetching_keep_menu:
  "contextMenuInfo (foldl (\<lambda>s m. onScrollPositionChange True m s) s ms) = contextMenuInfo s"
  by (induction ms arbitrary: s) (simp_all add: scroll_while_fetching_keeps_menu)

text \<open>
  C7, amended. While \<open>fetching\<close> is true, every evaluation of the scroll-position logic
  sets the four flags, whatever the sizes and offsets, and leaves the context-menu state as
  it is. The effect that runs when \<open>fetching\<close> becomes true clears the context-menu
  state, so after that commit and any number of evaluations of the scroll-position logic
  during the fetch no menu is open.
\<close>

theorem fetching_forces_flags:
  "scrolledToTop (onScrollPositionChange True m s)
   \<and> scrolledToBottom (onScrollPositionChange True m s)
   \<and> scrolledToLeft (onScrollPositionChange True m s)
   \<and> scrolledToRight (onScrollPositionChange True m s)
   \<and> contextMenuInfo (onScrollPositionChange True m s) = contextMenuInfo s
   \<and> contextMenuInfo (fetchingEffect True s) = None
   \<and> contextMenuInfo
        (foldl (\<lambda>s m. onScrollPositionChange True m s) (fetchingChanged True m s) ms) = None"
  by (simp add: scrolls_while_fetching_keep_menu fetchingChanged_def
      scroll_while_fetching_keeps_menu fetchingEffect_def)
     (simp add: onScrollPositionChange_def Let_def)

text \<open>
  The \<open>onContextMenu\<close> prop of a row does not depend on \<open>fetching\<close>: called during
  the fetch it opens a menu, and the scroll-position logic, which clears the menu only when
  no fetch is running, leaves it open.
\<close>

theorem fetching_menu_counterexample:
  "map_option (\<lambda>handler. handler exampleInfo) (rowOnContextMenu (Some exampleMenu) (1, ''a''))
     = Some [SetContextMenuInfo (Some exampleInfo)]
   \<and> contextMenuInfo
        (onScrollPositionChange True overflowMeasures
           (fst (performAll [SetContextMenuInfo (Some exampleInfo) :: (nat \<times> string, string) effect]
                   (fetchingChanged True overflowMeasures initialState, overflowMeasures))))
       = Some exampleInfo"
  by (simp add: rowOnContextMenu_def exampleMenu_def performAll_def
      scroll_while_fetching_keeps_menu)

subsection \<open>The context menu\<close>



subsection \<open>Pagination\<close>

text \<open>
  C10. For every page \<open>p\<close>, \<open>handlePageChange\<close> first scrolls the viewport to the
  top left corner and then calls \<open>onPageChange\<close> with \<open>p\<close>; it calls no state setter,
  so the state of the component is unchanged.
\<close>

theorem handlePageChange_effects:
  "handlePageChange onPageChange p = [ScrollTo 0 0, AppCall (onPageChange p)]
   \<and> performAll (handlePageChange onPageChange p) (s, m)
       = (s, m\<lparr>scrollTop := 0, scrollLeft := 0\<rparr>)"
  by (simp add: handlePageChange_def performAll_def)

end
